theory Spec2Isabelle
  imports Complex_Main
begin

section \<open>Reaction-diffusion simulation on a square grid (04_turing.ipynb)\<close>

text \<open>
  The notebook simulates the system
  \<open>du/dt = a \<Delta>u + u - u^3 - v + k\<close>, \<open>\<tau> dv/dt = b \<Delta>v + u - v\<close>
  by explicit finite differences on two \<open>size \<times> size\<close> numpy arrays \<open>U\<close> and \<open>V\<close>.

  Modelling decisions:
  \<^item> a 2D numpy array is a list of rows (\<open>'a list list\<close>); numpy arrays are rectangular,
    which the predicate \<open>shape\<close> records;
  \<^item> the cell values are \<open>float64\<close> in the source and \<open>real\<close> here: rounding, overflow,
    \<open>inf\<close> and \<open>nan\<close> are therefore not represented. The operations that only copy
    cells (slicing, slice assignment, the boundary copies) are polymorphic in the cell type;
  \<^item> the step count \<open>n = int(T/dt)\<close> is the one place where the program turns a float64
    into an integer, so that rounding, overflow and underflow decide what it does. The
    quotient is therefore not computed over \<open>real\<close>: the float64 division is an argument
    \<open>float_div\<close> of the model, and every statement about the step count and about the
    whole run holds for all such divisions;
  \<^item> the notebook's global names (\<open>a\<close>, \<open>b\<close>, \<open>tau\<close>, \<open>k\<close>, \<open>dx\<close>, \<open>dt\<close>) are explicit
    arguments of the functions that read them;
  \<^item> the in-place mutation of \<open>U\<close> and \<open>V\<close> is explicit state passing on the pair
    \<open>(U, V)\<close>;
  \<^item> Python exceptions are values of type \<open>error\<close>, results are \<open>error + 'a\<close>.
\<close>

subsection \<open>Python indexing and slicing\<close>

datatype error = ZeroDivisionError | OverflowError | ValueError | IndexError | MemoryError

definition err_bind :: "error + 'a \<Rightarrow> ('a \<Rightarrow> error + 'b) \<Rightarrow> error + 'b" where
  "err_bind m f = (case m of Inl e \<Rightarrow> Inl e | Inr x \<Rightarrow> f x)"

text \<open>
  An integer index \<open>i\<close> into an axis of length \<open>n\<close>: \<open>0 \<le> i < n\<close> counts from the
  front, \<open>-n \<le> i < 0\<close> from the back, anything else raises \<open>IndexError\<close>.
\<close>

definition py_index :: "nat \<Rightarrow> int \<Rightarrow> error + nat" where
  "py_index n i =
     (if 0 \<le> i \<and> i < int n then Inr (nat i)
      else if - int n \<le> i \<and> i < 0 then Inr (nat (int n + i))
      else Inl IndexError)"

text \<open>
  A slice bound (step 1) never raises: a negative bound counts from the back, and the
  result is clipped to \<open>0 .. n\<close>. A missing bound is \<open>None\<close>.
\<close>

definition slice_bound :: "nat \<Rightarrow> int \<Rightarrow> nat" where
  "slice_bound n i = (if i < 0 then nat (max 0 (int n + i)) else min n (nat i))"

definition slice_start :: "nat \<Rightarrow> int option \<Rightarrow> nat" where
  "slice_start n lo = (case lo of None \<Rightarrow> 0 | Some i \<Rightarrow> slice_bound n i)"

definition slice_stop :: "nat \<Rightarrow> int option \<Rightarrow> nat" where
  "slice_stop n hi = (case hi of None \<Rightarrow> n | Some i \<Rightarrow> slice_bound n i)"

text \<open>\<open>xs[lo:hi]\<close>: the elements at the positions \<open>start \<le> p < stop\<close>.\<close>

definition slice :: "int option \<Rightarrow> int option \<Rightarrow> 'a list \<Rightarrow> 'a list" where
  "slice lo hi xs =
     (let n = length xs; l = slice_start n lo; h = slice_stop n hi
      in take (h - l) (drop l xs))"

text \<open>\<open>Z[rlo:rhi, clo:chi]\<close> on a 2D array.\<close>

definition slice2 ::
  "int option \<Rightarrow> int option \<Rightarrow> int option \<Rightarrow> int option \<Rightarrow> 'a list list \<Rightarrow> 'a list list" where
  "slice2 rlo rhi clo chi Z = map (slice clo chi) (slice rlo rhi Z)"

text \<open>
  \<open>xs[lo:hi] = ys\<close> on a numpy array writes in place: the positions \<open>start \<le> p < stop\<close>
  receive \<open>ys[p - start]\<close>, every other position keeps its value and the length never
  changes. (numpy raises \<open>ValueError\<close> when the shapes differ; every slice assignment of
  the notebook has equal shapes, see \<open>shape_rhs_U\<close> and \<open>shape_rhs_V\<close> below.)
\<close>

definition assign_slice :: "int option \<Rightarrow> int option \<Rightarrow> 'a list \<Rightarrow> 'a list \<Rightarrow> 'a list" where
  "assign_slice lo hi xs ys =
     (let n = length xs; l = slice_start n lo; h = slice_stop n hi
      in map (\<lambda>p. if l \<le> p \<and> p < h then ys ! (p - l) else xs ! p) [0..<n])"

definition assign_slice2 ::
  "int option \<Rightarrow> int option \<Rightarrow> int option \<Rightarrow> int option \<Rightarrow>
     'a list list \<Rightarrow> 'a list list \<Rightarrow> 'a list list" where
  "assign_slice2 rlo rhi clo chi Z X =
     (let n = length Z; l = slice_start n rlo; h = slice_stop n rhi
      in map (\<lambda>p. if l \<le> p \<and> p < h then assign_slice clo chi (Z ! p) (X ! (p - l)) else Z ! p)
           [0..<n])"

subsection \<open>Grids\<close>

text \<open>A rectangular array with \<open>r\<close> rows and \<open>c\<close> columns.\<close>

definition shape :: "nat \<Rightarrow> nat \<Rightarrow> 'a list list \<Rightarrow> bool" where
  "shape r c Z \<longleftrightarrow> length Z = r \<and> list_all (\<lambda>row. length row = c) Z"

text \<open>The number of columns; an array without rows has none in this representation.\<close>

definition ncols :: "'a list list \<Rightarrow> nat" where
  "ncols Z = (case Z of [] \<Rightarrow> 0 | row # _ \<Rightarrow> length row)"

text \<open>The array of the given size with every cell equal to \<open>c\<close>.\<close>

definition full :: "nat \<Rightarrow> 'a \<Rightarrow> 'a list list" where
  "full n c = replicate n (replicate n c)"

subsection \<open>Neumann boundary conditions\<close>

text \<open>
  \<^verbatim>\<open>
    for Z in (U, V):
        Z[0,:] = Z[1,:]
        Z[-1,:] = Z[-2,:]
        Z[:,0] = Z[:,1]
        Z[:,-1] = Z[:,-2]
  \<close>
  Each statement reads a row (column) and writes it over another one; the right-hand side
  is evaluated first, so an index out of range on either side raises before anything is
  written.
\<close>

definition copy_row :: "int \<Rightarrow> int \<Rightarrow> 'a list list \<Rightarrow> error + 'a list list" where
  "copy_row dst src Z =
     err_bind (py_index (length Z) src) (\<lambda>s.
     err_bind (py_index (length Z) dst) (\<lambda>d.
       Inr (Z[d := Z ! s])))"

definition copy_col :: "int \<Rightarrow> int \<Rightarrow> 'a list list \<Rightarrow> error + 'a list list" where
  "copy_col dst src Z =
     err_bind (py_index (ncols Z) src) (\<lambda>s.
     err_bind (py_index (ncols Z) dst) (\<lambda>d.
       Inr (map (\<lambda>row. row[d := row ! s]) Z)))"

definition neumann :: "'a list list \<Rightarrow> error + 'a list list" where
  "neumann Z =
     err_bind (copy_row 0 1 Z) (\<lambda>Z1.
     err_bind (copy_row (- 1) (- 2) Z1) (\<lambda>Z2.
     err_bind (copy_col 0 1 Z2) (\<lambda>Z3.
       copy_col (- 1) (- 2) Z3)))"

text \<open>The index of the nearest interior row (column) of an axis of length \<open>n\<close>.\<close>

definition nearest_interior :: "nat \<Rightarrow> nat \<Rightarrow> nat" where
  "nearest_interior n i = min (max i 1) (n - 2)"

text \<open>
  The boundary copies as the specification lists them, for an array that has the rows
  and columns they name: the two row copies, and the two column copies.
\<close>

definition row_copies :: "'a list list \<Rightarrow> 'a list list" where
  "row_copies Z =
     (let n = length Z; Z1 = Z[0 := Z ! 1] in Z1[n - 1 := Z1 ! (n - 2)])"

definition col_copies :: "'a list list \<Rightarrow> 'a list list" where
  "col_copies Z =
     (let n = ncols Z
      in map (\<lambda>row. let row1 = row[0 := row ! 1] in row1[n - 1 := row1 ! (n - 2)]) Z)"

subsection \<open>Whole-array arithmetic\<close>

text \<open>
  numpy's operators act cell by cell on arrays of equal shape, and a scalar operand is
  combined with every cell. All array operands of the notebook are slices of
  \<open>size \<times> size\<close> arrays with equal shapes, so nothing is broadcast between arrays.
\<close>

type_synonym grid = "real list list"

definition arr_add :: "grid \<Rightarrow> grid \<Rightarrow> grid" where
  "arr_add X Y = map2 (map2 (+)) X Y"

definition arr_sub :: "grid \<Rightarrow> grid \<Rightarrow> grid" where
  "arr_sub X Y = map2 (map2 (-)) X Y"

definition scal_mul :: "real \<Rightarrow> grid \<Rightarrow> grid" where
  "scal_mul c X = map (map (\<lambda>x. c * x)) X"

definition arr_add_scal :: "grid \<Rightarrow> real \<Rightarrow> grid" where
  "arr_add_scal X c = map (map (\<lambda>x. x + c)) X"

definition arr_div_scal :: "grid \<Rightarrow> real \<Rightarrow> grid" where
  "arr_div_scal X c = map (map (\<lambda>x. x / c)) X"

definition arr_pow :: "grid \<Rightarrow> nat \<Rightarrow> grid" where
  "arr_pow X m = map (map (\<lambda>x. x ^ m)) X"

subsection \<open>The discrete Laplacian\<close>

text \<open>
  \<^verbatim>\<open>
    def laplacian(Z):
        Ztop = Z[0:-2,1:-1]
        Zleft = Z[1:-1,0:-2]
        Zbottom = Z[2:,1:-1]
        Zright = Z[1:-1,2:]
        Zcenter = Z[1:-1,1:-1]
        return (Ztop + Zleft + Zbottom + Zright - 4 * Zcenter) / dx**2
  \<close>
  The body only reads slices of \<open>Z\<close> and builds new arrays from them; it contains no
  assignment, so the function is a pure function of \<open>Z\<close> and the global \<open>dx\<close>.
\<close>

definition laplacian :: "real \<Rightarrow> grid \<Rightarrow> grid" where
  "laplacian dx Z =
     (let Ztop = slice2 (Some 0) (Some (- 2)) (Some 1) (Some (- 1)) Z;
          Zleft = slice2 (Some 1) (Some (- 1)) (Some 0) (Some (- 2)) Z;
          Zbottom = slice2 (Some 2) None (Some 1) (Some (- 1)) Z;
          Zright = slice2 (Some 1) (Some (- 1)) (Some 2) None Z;
          Zcenter = slice2 (Some 1) (Some (- 1)) (Some 1) (Some (- 1)) Z
      in arr_div_scal
           (arr_sub (arr_add (arr_add (arr_add Ztop Zleft) Zbottom) Zright) (scal_mul 4 Zcenter))
           (dx ^ 2))"

subsection \<open>One iteration of the time-stepping loop\<close>

text \<open>
  \<^verbatim>\<open>
    deltaU = laplacian(U)
    deltaV = laplacian(V)
    Uc = U[1:-1,1:-1]
    Vc = V[1:-1,1:-1]
    U[1:-1,1:-1], V[1:-1,1:-1] = \
        Uc + dt * (a * deltaU + Uc - Uc**3 - Vc + k), \
        Vc + dt * (b * deltaV + Uc - Vc) / tau
  \<close>
  \<open>Uc\<close> and \<open>Vc\<close> are views of \<open>U\<close> and \<open>V\<close>. Python evaluates the whole right-hand
  tuple, which builds two new arrays, before it stores into the first target; so both
  views are read while \<open>U\<close> and \<open>V\<close> still hold their values from before the statement.
  The two stores then happen from left to right.
\<close>

definition interior :: "'a list list \<Rightarrow> 'a list list" where
  "interior Z = slice2 (Some 1) (Some (- 1)) (Some 1) (Some (- 1)) Z"

definition assign_interior :: "'a list list \<Rightarrow> 'a list list \<Rightarrow> 'a list list" where
  "assign_interior Z X = assign_slice2 (Some 1) (Some (- 1)) (Some 1) (Some (- 1)) Z X"

definition rhs_U :: "real \<Rightarrow> real \<Rightarrow> real \<Rightarrow> grid \<Rightarrow> grid \<Rightarrow> grid \<Rightarrow> grid" where
  "rhs_U a k dt deltaU Uc Vc =
     arr_add Uc
       (scal_mul dt
          (arr_add_scal
             (arr_sub (arr_sub (arr_add (scal_mul a deltaU) Uc) (arr_pow Uc 3)) Vc) k))"

definition rhs_V :: "real \<Rightarrow> real \<Rightarrow> real \<Rightarrow> grid \<Rightarrow> grid \<Rightarrow> grid \<Rightarrow> grid" where
  "rhs_V b tau dt deltaV Uc Vc =
     arr_add Vc
       (arr_div_scal (scal_mul dt (arr_sub (arr_add (scal_mul b deltaV) Uc) Vc)) tau)"

definition update ::
  "real \<Rightarrow> real \<Rightarrow> real \<Rightarrow> real \<Rightarrow> real \<Rightarrow> real \<Rightarrow> grid \<times> grid \<Rightarrow> grid \<times> grid" where
  "update a b tau k dx dt s =
     (let U = fst s; V = snd s;
          deltaU = laplacian dx U;
          deltaV = laplacian dx V;
          Uc = interior U;
          Vc = interior V;
          newU = rhs_U a k dt deltaU Uc Vc;
          newV = rhs_V b tau dt deltaV Uc Vc;
          U' = assign_interior U newU;
          V' = assign_interior V newV
      in (U', V'))"

text \<open>The loop body: the interior update, then the boundary copies on \<open>U\<close> and on \<open>V\<close>.\<close>

definition iteration ::
  "real \<Rightarrow> real \<Rightarrow> real \<Rightarrow> real \<Rightarrow> real \<Rightarrow> real \<Rightarrow> grid \<times> grid \<Rightarrow> error + grid \<times> grid" where
  "iteration a b tau k dx dt s =
     (let s' = update a b tau k dx dt s
      in err_bind (neumann (fst s')) (\<lambda>U'.
         err_bind (neumann (snd s')) (\<lambda>V'.
           Inr (U', V'))))"

text \<open>\<^verbatim>\<open>for i in range(n):\<close> with the loop body above.\<close>

fun steps ::
  "nat \<Rightarrow> real \<Rightarrow> real \<Rightarrow> real \<Rightarrow> real \<Rightarrow> real \<Rightarrow> real \<Rightarrow> grid \<times> grid \<Rightarrow> error + grid \<times> grid" where
  "steps 0 a b tau k dx dt s = Inr s"
| "steps (Suc m) a b tau k dx dt s =
     err_bind (iteration a b tau k dx dt s) (steps m a b tau k dx dt)"

subsection \<open>The derived parameters and the whole run\<close>

text \<open>
  \<^verbatim>\<open>
    size = 80  # size of the 2D grid
    dx = 2./size  # space step
    T = 10.0  # total time
    dt = .9 * dx**2/2  # time step
    n = int(T/dt)
  \<close>
  \<open>2./size\<close> first converts the integer \<open>size\<close> to a float64, which raises
  \<open>OverflowError\<close> when the nearest float64 would be beyond the largest one, that is from
  \<open>2\<^sup>1\<^sup>0\<^sup>2\<^sup>4 - 2\<^sup>9\<^sup>7\<^sup>0\<close> on in absolute value; the division then raises \<open>ZeroDivisionError\<close>
  on the divisor zero. \<open>.9 * dx**2/2\<close> raises nothing for a \<open>dx\<close> of this form.
\<close>

definition float_int_limit :: int where
  "float_int_limit = 2 ^ 1024 - 2 ^ 970"

definition dx_of :: "int \<Rightarrow> error + real" where
  "dx_of sz =
     (if float_int_limit \<le> \<bar>sz\<bar> then Inl OverflowError
      else if sz = 0 then Inl ZeroDivisionError
      else Inr (2 / real_of_int sz))"

definition dt_of :: "real \<Rightarrow> real" where
  "dt_of dx = 9 / 10 * dx ^ 2 / 2"

text \<open>
  A Python float is a finite float64, an infinity or a nan. \<open>int\<close> truncates a finite
  float towards zero, raises \<open>OverflowError\<close> on an infinity and \<open>ValueError\<close> on a nan.
\<close>

datatype pyfloat = Finite real | Infinite | NaN

definition py_int :: "pyfloat \<Rightarrow> error + int" where
  "py_int x =
     (case x of
        Finite r \<Rightarrow> Inr (if r < 0 then \<lceil>r\<rceil> else \<lfloor>r\<rfloor>)
      | Infinite \<Rightarrow> Inl OverflowError
      | NaN \<Rightarrow> Inl ValueError)"

text \<open>
  \<open>n = int(T/dt)\<close>. The float64 evaluation of \<open>T/dt\<close> is the argument \<open>float_div\<close>: it
  returns the quotient as the machine rounds it, an infinity when the quotient overflows,
  or \<open>ZeroDivisionError\<close> when the float64 value of \<open>dt\<close> is zero (which an underflow of
  \<open>dx**2\<close> can cause for a finite \<open>dx\<close>). Nothing is assumed about it.
\<close>

definition n_of :: "(real \<Rightarrow> real \<Rightarrow> error + pyfloat) \<Rightarrow> real \<Rightarrow> real \<Rightarrow> error + int" where
  "n_of float_div T dt = err_bind (float_div T dt) py_int"

text \<open>
  \<^verbatim>\<open>
    U = np.random.rand(size, size)
    V = np.random.rand(size, size)
  \<close>
  A negative dimension raises \<open>ValueError\<close>. Otherwise the outcome of the call is an input
  of the model: the array of the drawn values, or the error that numpy raises when it
  cannot create an array of this size.
\<close>

definition rand :: "int \<Rightarrow> error + grid \<Rightarrow> error + grid" where
  "rand sz drawn = (if sz < 0 then Inl ValueError else drawn)"

text \<open>The cells of the notebook in their order, \<open>range(n)\<close> being empty for \<open>n \<le> 0\<close>.\<close>

definition simulate ::
  "(real \<Rightarrow> real \<Rightarrow> error + pyfloat) \<Rightarrow> real \<Rightarrow> real \<Rightarrow> real \<Rightarrow> real \<Rightarrow> int \<Rightarrow> real \<Rightarrow>
     error + grid \<Rightarrow> error + grid \<Rightarrow> error + grid \<times> grid" where
  "simulate float_div a b tau k sz T U0 V0 =
     err_bind (dx_of sz) (\<lambda>dx.
     err_bind (n_of float_div T (dt_of dx)) (\<lambda>n.
     err_bind (rand sz U0) (\<lambda>U.
     err_bind (rand sz V0) (\<lambda>V.
       steps (nat n) a b tau k dx (dt_of dx) (U, V)))))"

subsection \<open>The update rule as the specification words it\<close>

text \<open>
  The specification describes the step cell by cell: both right-hand sides are computed
  from one snapshot of the fields taken before the step, and only then both fields are
  written back, on interior cells only.
\<close>

definition is_interior :: "nat \<Rightarrow> nat \<Rightarrow> nat \<Rightarrow> bool" where
  "is_interior n i j \<longleftrightarrow> 1 \<le> i \<and> i \<le> n - 2 \<and> 1 \<le> j \<and> j \<le> n - 2"

definition lap_cell :: "real \<Rightarrow> grid \<Rightarrow> nat \<Rightarrow> nat \<Rightarrow> real" where
  "lap_cell dx Z i j =
     (Z ! (i - 1) ! j + Z ! i ! (j - 1) + Z ! (i + 1) ! j + Z ! i ! (j + 1) - 4 * Z ! i ! j)
       / dx ^ 2"

definition new_U_cell :: "real \<Rightarrow> real \<Rightarrow> real \<Rightarrow> real \<Rightarrow> grid \<Rightarrow> grid \<Rightarrow> nat \<Rightarrow> nat \<Rightarrow> real" where
  "new_U_cell a k dx dt U V i j =
     U ! i ! j + dt * (a * lap_cell dx U i j + U ! i ! j - (U ! i ! j) ^ 3 - V ! i ! j + k)"

definition new_V_cell :: "real \<Rightarrow> real \<Rightarrow> real \<Rightarrow> real \<Rightarrow> grid \<Rightarrow> grid \<Rightarrow> nat \<Rightarrow> nat \<Rightarrow> real" where
  "new_V_cell b tau dx dt U V i j =
     V ! i ! j + dt * (b * lap_cell dx V i j + U ! i ! j - V ! i ! j) / tau"

definition write_interior :: "grid \<Rightarrow> (nat \<Rightarrow> nat \<Rightarrow> real) \<Rightarrow> grid" where
  "write_interior Z f =
     (let n = length Z
      in map (\<lambda>i. map (\<lambda>j. if is_interior n i j then f i j else Z ! i ! j) [0..<n]) [0..<n])"

definition update_simultaneous ::
  "real \<Rightarrow> real \<Rightarrow> real \<Rightarrow> real \<Rightarrow> real \<Rightarrow> real \<Rightarrow> grid \<times> grid \<Rightarrow> grid \<times> grid" where
  "update_simultaneous a b tau k dx dt s =
     (let U_old = fst s; V_old = snd s
      in (write_interior U_old (new_U_cell a k dx dt U_old V_old),
          write_interior V_old (new_V_cell b tau dx dt U_old V_old)))"

text \<open>
  The order the specification rules out, for comparison: \<open>U\<close> is written back first and
  the right-hand side of \<open>V\<close> then reads the updated \<open>U\<close>.
\<close>

definition update_sequential ::
  "real \<Rightarrow> real \<Rightarrow> real \<Rightarrow> real \<Rightarrow> real \<Rightarrow> real \<Rightarrow> grid \<times> grid \<Rightarrow> grid \<times> grid" where
  "update_sequential a b tau k dx dt s =
     (let U_old = fst s; V_old = snd s;
          U_new = write_interior U_old (new_U_cell a k dx dt U_old V_old)
      in (U_new, write_interior V_old (new_V_cell b tau dx dt U_new V_old)))"

subsection \<open>Example fields and an example division\<close>

text \<open>
  The division without rounding, for the examples. float64 rounding moves a quotient by
  a few units in its last place; the examples use quotients (\<open>3/2\<close>, \<open>-11/2\<close>, \<open>50/9\<close>,
  \<open>5/9\<close>, \<open>320000/9\<close>) that are far from an integer, so that their truncation is the one
  the machine computes.
\<close>

definition exact_div :: "real \<Rightarrow> real \<Rightarrow> error + pyfloat" where
  "exact_div x y = (if y = 0 then Inl ZeroDivisionError else Inr (Finite (x / y)))"


definition G4 :: grid where
  "G4 = [[1, 2, 3, 4], [5, 6, 7, 8], [9, 10, 11, 12], [13, 14, 15, 16]]"

definition P3 :: grid where
  "P3 = [[1, 0, 2], [0, 3, 1], [2, 1, 0]]"

definition Q3 :: grid where
  "Q3 = [[0, 1, 0], [1, 5, 2], [0, 3, 0]]"

section \<open>Properties\<close>

subsection \<open>Boundary enforcement\<close>

lemma shape_nth:
  "shape r c Z \<Longrightarrow> i < r \<Longrightarrow> length (Z ! i) = c"
  by (simp add: shape_def list_all_length)

lemma shape_length:
  "shape r c Z \<Longrightarrow> length Z = r"
  by (simp add: shape_def)

lemma shapeI:
  "length Z = r \<Longrightarrow> (\<And>i. i < r \<Longrightarrow> length (Z ! i) = c) \<Longrightarrow> shape r c Z"
  by (simp add: shape_def list_all_length)

lemma ncols_shape:
  "shape r c Z \<Longrightarrow> 0 < r \<Longrightarrow> ncols Z = c"
  by (cases Z) (auto simp: shape_def ncols_def)

lemma shape_examples: "shape 3 3 Q3" "shape 3 3 P3" "shape 4 4 G4"
  by (simp_all add: shape_def Q3_def P3_def G4_def)

lemma py_index_0: "2 \<le> n \<Longrightarrow> py_index n 0 = Inr 0"
  by (simp add: py_index_def)

lemma py_index_1: "2 \<le> n \<Longrightarrow> py_index n 1 = Inr 1"
  by (simp add: py_index_def)

lemma py_index_m1: "2 \<le> n \<Longrightarrow> py_index n (- 1) = Inr (n - 1)"
  by (auto simp: py_index_def nat_diff_distrib')

lemma py_index_m2: "2 \<le> n \<Longrightarrow> py_index n (- 2) = Inr (n - 2)"
  by (auto simp: py_index_def nat_diff_distrib')

lemma copy_row_front:
  "2 \<le> length Z \<Longrightarrow> copy_row 0 1 Z = Inr (Z[0 := Z ! 1])"
  by (simp add: copy_row_def err_bind_def py_index_0 py_index_1)

lemma copy_row_back:
  "2 \<le> length Z \<Longrightarrow> copy_row (- 1) (- 2) Z = Inr (Z[length Z - 1 := Z ! (length Z - 2)])"
  by (simp add: copy_row_def err_bind_def py_index_m1 py_index_m2)

lemma copy_col_front:
  "2 \<le> ncols Z \<Longrightarrow> copy_col 0 1 Z = Inr (map (\<lambda>row. row[0 := row ! 1]) Z)"
  by (simp add: copy_col_def err_bind_def py_index_0 py_index_1)

lemma copy_col_back:
  "2 \<le> ncols Z \<Longrightarrow>
     copy_col (- 1) (- 2) Z = Inr (map (\<lambda>row. row[ncols Z - 1 := row ! (ncols Z - 2)]) Z)"
  by (simp add: copy_col_def err_bind_def py_index_m1 py_index_m2)

lemma shape_list_update:
  "shape r c Z \<Longrightarrow> length row = c \<Longrightarrow> shape r c (Z[i := row])"
  by (cases "i < length Z") (auto simp: shape_def list_all_length nth_list_update)

lemma shape_map_update:
  "shape r c Z \<Longrightarrow> shape r c (map (\<lambda>row. row[i := f row]) Z)"
  by (auto simp: shape_def list_all_length)

lemma neumann_eq:
  assumes "shape n n Z" "2 \<le> n"
  shows "neumann Z = Inr (map (\<lambda>row. row[n - 1 := row ! (n - 2)])
           (map (\<lambda>row. row[0 := row ! 1])
             ((Z[0 := Z ! 1])[n - 1 := (Z[0 := Z ! 1]) ! (n - 2)])))"
proof -
  have len: "length Z = n" using assms by (simp add: shape_def)
  let ?Z1 = "Z[0 := Z ! 1]"
  let ?Z2 = "?Z1[n - 1 := ?Z1 ! (n - 2)]"
  let ?Z3 = "map (\<lambda>row. row[0 := row ! 1]) ?Z2"
  have s1: "shape n n ?Z1"
    using assms by (intro shape_list_update) (simp_all add: shape_nth)
  have s2: "shape n n ?Z2"
    using assms s1 by (intro shape_list_update) (simp_all add: shape_nth)
  have s3: "shape n n ?Z3"
    using s2 by (rule shape_map_update)
  have pos: "0 < n" using assms by simp
  have c2: "ncols ?Z2 = n" using s2 pos by (rule ncols_shape)
  have c3: "ncols ?Z3 = n" using s3 pos by (rule ncols_shape)
  have r1: "copy_row 0 1 Z = Inr ?Z1" using assms len by (simp add: copy_row_front)
  have r2: "copy_row (- 1) (- 2) ?Z1 = Inr ?Z2"
    using copy_row_back [of ?Z1] assms len by simp
  have r3: "copy_col 0 1 ?Z2 = Inr ?Z3"
    using copy_col_front [of ?Z2] c2 assms by simp
  have r4: "copy_col (- 1) (- 2) ?Z3 = Inr (map (\<lambda>row. row[n - 1 := row ! (n - 2)]) ?Z3)"
    using copy_col_back [of ?Z3] c3 assms by simp
  show ?thesis
    by (simp only: neumann_def err_bind_def r1 r2 r3 r4 sum.case)
qed


lemma neumann_cells:
  assumes "shape n n Z" "3 \<le> n"
  shows "\<exists>Z'. neumann Z = Inr Z' \<and> shape n n Z' \<and>
           (\<forall>i<n. \<forall>j<n. Z' ! i ! j = Z ! nearest_interior n i ! nearest_interior n j)"
proof -
  have len: "length Z = n" using assms by (simp add: shape_def)
  have rows: "\<And>i. i < n \<Longrightarrow> length (Z ! i) = n" using assms by (simp add: shape_nth)
  define R where "R = (Z[0 := Z ! 1])[n - 1 := (Z[0 := Z ! 1]) ! (n - 2)]"
  define Z' where
    "Z' = map (\<lambda>row. row[n - 1 := row ! (n - 2)]) (map (\<lambda>row. row[0 := row ! 1]) R)"
  have eq: "neumann Z = Inr Z'"
    unfolding Z'_def R_def using assms by (intro neumann_eq) simp_all
  have ni: "nearest_interior n i < n" for i
    using assms by (simp add: nearest_interior_def)
  have R: "R ! i = Z ! nearest_interior n i" if "i < n" for i
    unfolding R_def using that assms len by (auto simp: nearest_interior_def nth_list_update)
  have lenR: "length R = n" unfolding R_def using len by simp
  have lenRi: "length (R ! i) = n" if "i < n" for i
    using that by (simp add: R rows ni)
  have cell: "Z' ! i ! j = Z ! nearest_interior n i ! nearest_interior n j"
    if "i < n" "j < n" for i j
    unfolding Z'_def using that assms lenR lenRi [OF that(1)]
    by (auto simp: R nearest_interior_def nth_list_update)
  have sh: "shape n n Z'"
  proof (rule shapeI)
    show "length Z' = n" unfolding Z'_def using lenR by simp
  next
    fix i assume i: "i < n"
    show "length (Z' ! i) = n" unfolding Z'_def using i lenR lenRi [OF i] by simp
  qed
  show ?thesis using eq sh cell by blast
qed

lemma grid_eqI:
  assumes "shape r c X" "shape r c Y" "\<And>i j. i < r \<Longrightarrow> j < c \<Longrightarrow> X ! i ! j = Y ! i ! j"
  shows "X = Y"
proof (rule nth_equalityI)
  show "length X = length Y" using assms by (simp add: shape_def)
next
  fix i assume "i < length X"
  then have i: "i < r" using assms by (simp add: shape_def)
  show "X ! i = Y ! i"
  proof (rule nth_equalityI)
    show "length (X ! i) = length (Y ! i)" using assms i by (simp add: shape_nth)
  next
    fix j assume "j < length (X ! i)"
    then have "j < c" using assms i by (simp add: shape_nth)
    then show "X ! i ! j = Y ! i ! j" using assms i by simp
  qed
qed

lemma nearest_interior_idem:
  "nearest_interior n (nearest_interior n i) = nearest_interior n i"
  by (simp add: nearest_interior_def)

lemma nearest_interior_id:
  "1 \<le> i \<Longrightarrow> i \<le> n - 2 \<Longrightarrow> nearest_interior n i = i"
  by (simp add: nearest_interior_def)

lemma neumann_as_copies:
  assumes "shape n n Z" "2 \<le> n"
  shows "neumann Z = Inr (col_copies (row_copies Z))"
proof -
  have len: "length Z = n" using assms by (simp add: shape_def)
  have pos: "0 < n" using assms by simp
  have "shape n n (row_copies Z)"
    unfolding row_copies_def Let_def using assms len
    by (intro shape_list_update) (simp_all add: shape_nth nth_list_update)
  then have "ncols (row_copies Z) = n" using pos by (rule ncols_shape)
  then show ?thesis
    using neumann_eq [OF assms] len by (simp add: col_copies_def row_copies_def Let_def)
qed

text \<open>
  Claim C10. For an \<open>n \<times> n\<close> field with \<open>n \<ge> 3\<close> the boundary enforcement succeeds and
  changes border cells only: every interior cell \<open>(i, j)\<close>, \<open>1 \<le> i, j \<le> n - 2\<close>, holds the
  same value afterwards as before.
\<close>

theorem neumann_keeps_interior:
  assumes "shape n n Z" "3 \<le> n"
  shows "\<exists>Z'. neumann Z = Inr Z' \<and>
           (\<forall>i j. 1 \<le> i \<and> i \<le> n - 2 \<and> 1 \<le> j \<and> j \<le> n - 2 \<longrightarrow> Z' ! i ! j = Z ! i ! j)"
proof -
  from neumann_cells [OF assms] obtain Z' where
    Z': "neumann Z = Inr Z'"
    and cells: "\<And>i j. i < n \<Longrightarrow> j < n \<Longrightarrow>
                  Z' ! i ! j = Z ! nearest_interior n i ! nearest_interior n j"
    by blast
  have "Z' ! i ! j = Z ! i ! j" if "1 \<le> i" "i \<le> n - 2" "1 \<le> j" "j \<le> n - 2" for i j
  proof -
    have "i < n" "j < n" using that assms by simp_all
    then show ?thesis using cells [of i j] that by (simp add: nearest_interior_id)
  qed
  then show ?thesis using Z' by blast
qed

theorem neumann_keeps_interior_witness:
  "shape 4 4 G4 \<and> (3::nat) \<le> 4 \<and>
     (\<exists>Z'. neumann G4 = Inr Z' \<and> Z' ! 1 ! 1 = 6 \<and> Z' ! 1 ! 2 = 7 \<and> Z' ! 2 ! 1 = 10 \<and> Z' ! 2 ! 2 = 11)"
proof -
  have s: "shape 4 4 G4" by (simp add: shape_def G4_def)
  from neumann_keeps_interior [OF s] obtain Z' where
    Z': "neumann G4 = Inr Z'"
    and cells: "\<forall>i j. 1 \<le> i \<and> i \<le> 4 - 2 \<and> 1 \<le> j \<and> j \<le> 4 - 2 \<longrightarrow> Z' ! i ! j = G4 ! i ! j"
    by auto
  have "Z' ! 1 ! 1 = G4 ! 1 ! 1" "Z' ! 1 ! 2 = G4 ! 1 ! 2" "Z' ! 2 ! 1 = G4 ! 2 ! 1" "Z' ! 2 ! 2 = G4 ! 2 ! 2"
    using cells by simp_all
  then show ?thesis using s Z' by (simp add: G4_def)
qed

text \<open>
  Claim C8. For an \<open>n \<times> n\<close> field with \<open>n \<ge> 3\<close>, applying the boundary enforcement twice in
  a row gives the same field as applying it once.
\<close>

theorem neumann_idempotent:
  assumes "shape n n Z" "3 \<le> n"
  shows "\<exists>Z'. neumann Z = Inr Z' \<and> neumann Z' = Inr Z'"
proof -
  from neumann_cells [OF assms] obtain Z' where
    Z': "neumann Z = Inr Z'" and sh: "shape n n Z'"
    and cells: "\<And>i j. i < n \<Longrightarrow> j < n \<Longrightarrow>
                  Z' ! i ! j = Z ! nearest_interior n i ! nearest_interior n j"
    by blast
  from neumann_cells [OF sh assms(2)] obtain Z'' where
    Z'': "neumann Z' = Inr Z''" and sh': "shape n n Z''"
    and cells': "\<And>i j. i < n \<Longrightarrow> j < n \<Longrightarrow>
                  Z'' ! i ! j = Z' ! nearest_interior n i ! nearest_interior n j"
    by blast
  have ni: "nearest_interior n i < n" for i
    using assms by (simp add: nearest_interior_def)
  have "Z'' = Z'"
  proof (rule grid_eqI [OF sh' sh])
    fix i j assume "i < n" "j < n"
    then show "Z'' ! i ! j = Z' ! i ! j"
      by (simp add: cells' cells ni nearest_interior_idem)
  qed
  then show ?thesis using Z' Z'' by simp
qed

theorem neumann_idempotent_witness:
  "shape 4 4 G4 \<and> (3::nat) \<le> 4 \<and> (\<exists>Z'. neumann G4 = Inr Z' \<and> neumann Z' = Inr Z')"
proof -
  have s: "shape 4 4 G4" by (simp add: shape_def G4_def)
  show ?thesis using s neumann_idempotent [OF s] by simp
qed

text \<open>
  Claim C4. For an \<open>n \<times> n\<close> field with \<open>n \<ge> 3\<close> the boundary enforcement is the two row
  copies followed by the two column copies on the row-updated array, so each corner ends
  up with the column-copy value: the final \<open>Z[0][0]\<close> is the final \<open>Z[0][1]\<close>, which is the
  old \<open>Z[1][1]\<close>, and likewise at the other three corners.
\<close>

theorem neumann_corners:
  assumes "shape n n Z" "3 \<le> n"
  shows "\<exists>Z'. neumann Z = Inr Z' \<and> Z' = col_copies (row_copies Z) \<and>
           Z' ! 0 ! 0 = Z' ! 0 ! 1 \<and> Z' ! 0 ! 0 = Z ! 1 ! 1 \<and>
           Z' ! 0 ! (n - 1) = Z' ! 0 ! (n - 2) \<and> Z' ! 0 ! (n - 1) = Z ! 1 ! (n - 2) \<and>
           Z' ! (n - 1) ! 0 = Z' ! (n - 1) ! 1 \<and> Z' ! (n - 1) ! 0 = Z ! (n - 2) ! 1 \<and>
           Z' ! (n - 1) ! (n - 1) = Z' ! (n - 1) ! (n - 2) \<and>
           Z' ! (n - 1) ! (n - 1) = Z ! (n - 2) ! (n - 2)"
proof -
  from neumann_cells [OF assms] obtain Z' where
    Z': "neumann Z = Inr Z'"
    and cells: "\<And>i j. i < n \<Longrightarrow> j < n \<Longrightarrow>
                  Z' ! i ! j = Z ! nearest_interior n i ! nearest_interior n j"
    by blast
  have eq: "Z' = col_copies (row_copies Z)"
    using Z' neumann_as_copies [OF assms(1)] assms(2) by simp
  have c: "Z' ! 0 ! 0 = Z ! 1 ! 1" "Z' ! 0 ! 1 = Z ! 1 ! 1"
    "Z' ! 0 ! (n - 1) = Z ! 1 ! (n - 2)" "Z' ! 0 ! (n - 2) = Z ! 1 ! (n - 2)"
    "Z' ! (n - 1) ! 0 = Z ! (n - 2) ! 1" "Z' ! (n - 1) ! 1 = Z ! (n - 2) ! 1"
    "Z' ! (n - 1) ! (n - 1) = Z ! (n - 2) ! (n - 2)"
    "Z' ! (n - 1) ! (n - 2) = Z ! (n - 2) ! (n - 2)"
    using assms(2) by (simp_all add: cells nearest_interior_def)
  show ?thesis using Z' eq c by simp
qed

theorem neumann_corners_witness:
  "shape 4 4 G4 \<and> (3::nat) \<le> 4 \<and>
     (\<exists>Z'. neumann G4 = Inr Z' \<and> Z' ! 0 ! 0 = 6 \<and> Z' ! 0 ! 3 = 7 \<and> Z' ! 3 ! 0 = 10 \<and> Z' ! 3 ! 3 = 11)"
proof -
  have s: "shape 4 4 G4" by (simp add: shape_def G4_def)
  from neumann_corners [OF s] obtain Z' where
    Z': "neumann G4 = Inr Z'"
    and c: "Z' ! 0 ! 0 = G4 ! 1 ! 1" "Z' ! 0 ! (4 - 1) = G4 ! 1 ! (4 - 2)"
      "Z' ! (4 - 1) ! 0 = G4 ! (4 - 2) ! 1" "Z' ! (4 - 1) ! (4 - 1) = G4 ! (4 - 2) ! (4 - 2)"
    by auto
  show ?thesis using s Z' c by (simp add: G4_def)
qed

subsection \<open>Slices and whole-array arithmetic, cell by cell\<close>

lemma slice_stop_le: "slice_stop n hi \<le> n"
  by (auto simp: slice_stop_def slice_bound_def split: option.splits)

lemma length_slice:
  "length (slice lo hi xs) = slice_stop (length xs) hi - slice_start (length xs) lo"
  using slice_stop_le [of "length xs" hi] by (simp add: slice_def Let_def)

lemma nth_slice:
  "p < slice_stop (length xs) hi - slice_start (length xs) lo \<Longrightarrow>
     slice lo hi xs ! p = xs ! (slice_start (length xs) lo + p)"
  using slice_stop_le [of "length xs" hi] by (simp add: slice_def Let_def)

lemma shape_slice2:
  assumes "shape r c Z"
  shows "shape (slice_stop r rhi - slice_start r rlo) (slice_stop c chi - slice_start c clo)
           (slice2 rlo rhi clo chi Z)"
proof (rule shapeI)
  show "length (slice2 rlo rhi clo chi Z) = slice_stop r rhi - slice_start r rlo"
    using assms by (simp add: slice2_def length_slice shape_def)
next
  fix i assume i: "i < slice_stop r rhi - slice_start r rlo"
  have len: "length Z = r" using assms by (simp add: shape_def)
  have "slice_start r rlo + i < r" using i slice_stop_le [of r rhi] by simp
  then have "length (Z ! (slice_start r rlo + i)) = c" using assms by (simp add: shape_nth)
  then show "length (slice2 rlo rhi clo chi Z ! i) = slice_stop c chi - slice_start c clo"
    using i len by (simp add: slice2_def length_slice nth_slice)
qed

lemma nth_slice2:
  assumes "shape r c Z"
    and "i < slice_stop r rhi - slice_start r rlo"
    and "j < slice_stop c chi - slice_start c clo"
  shows "slice2 rlo rhi clo chi Z ! i ! j = Z ! (slice_start r rlo + i) ! (slice_start c clo + j)"
proof -
  have len: "length Z = r" using assms by (simp add: shape_def)
  have "slice_start r rlo + i < r" using assms(2) slice_stop_le [of r rhi] by simp
  then have "length (Z ! (slice_start r rlo + i)) = c" using assms by (simp add: shape_nth)
  then show ?thesis
    using assms(2,3) len by (simp add: slice2_def length_slice nth_slice)
qed

lemma slice_bounds:
  "slice_start n (Some 0) = 0"
  "2 \<le> n \<Longrightarrow> slice_start n (Some 1) = 1"
  "2 \<le> n \<Longrightarrow> slice_start n (Some 2) = 2"
  "slice_stop n None = n"
  "slice_stop n (Some (- 1)) = n - 1"
  "slice_stop n (Some (- 2)) = n - 2"
  by (auto simp: slice_start_def slice_stop_def slice_bound_def nat_diff_distrib')


lemma shape_map2:
  assumes "shape r c X" "shape r c Y"
  shows "shape r c (map2 (map2 f) X Y)"
  using assms by (intro shapeI) (simp_all add: shape_def list_all_length)

lemma nth_map2:
  assumes "shape r c X" "shape r c Y" "i < r" "j < c"
  shows "map2 (map2 f) X Y ! i ! j = f (X ! i ! j) (Y ! i ! j)"
  using assms by (simp add: shape_def list_all_length)

lemma shape_map:
  assumes "shape r c X"
  shows "shape r c (map (map f) X)"
  using assms by (intro shapeI) (simp_all add: shape_def list_all_length)

lemma nth_map:
  assumes "shape r c X" "i < r" "j < c"
  shows "map (map f) X ! i ! j = f (X ! i ! j)"
  using assms by (simp add: shape_def list_all_length)

lemma shape_arr:
  "shape r c X \<Longrightarrow> shape r c Y \<Longrightarrow> shape r c (arr_add X Y)"
  "shape r c X \<Longrightarrow> shape r c Y \<Longrightarrow> shape r c (arr_sub X Y)"
  "shape r c X \<Longrightarrow> shape r c (scal_mul x X)"
  "shape r c X \<Longrightarrow> shape r c (arr_add_scal X x)"
  "shape r c X \<Longrightarrow> shape r c (arr_div_scal X x)"
  "shape r c X \<Longrightarrow> shape r c (arr_pow X m)"
  unfolding arr_add_def arr_sub_def scal_mul_def arr_add_scal_def arr_div_scal_def arr_pow_def
  by (rule shape_map2 shape_map; assumption)+

lemma nth_arr:
  "shape r c X \<Longrightarrow> shape r c Y \<Longrightarrow> i < r \<Longrightarrow> j < c \<Longrightarrow>
     arr_add X Y ! i ! j = X ! i ! j + Y ! i ! j"
  "shape r c X \<Longrightarrow> shape r c Y \<Longrightarrow> i < r \<Longrightarrow> j < c \<Longrightarrow>
     arr_sub X Y ! i ! j = X ! i ! j - Y ! i ! j"
  "shape r c X \<Longrightarrow> i < r \<Longrightarrow> j < c \<Longrightarrow> scal_mul x X ! i ! j = x * X ! i ! j"
  "shape r c X \<Longrightarrow> i < r \<Longrightarrow> j < c \<Longrightarrow> arr_add_scal X x ! i ! j = X ! i ! j + x"
  "shape r c X \<Longrightarrow> i < r \<Longrightarrow> j < c \<Longrightarrow> arr_div_scal X x ! i ! j = X ! i ! j / x"
  "shape r c X \<Longrightarrow> i < r \<Longrightarrow> j < c \<Longrightarrow> arr_pow X m ! i ! j = (X ! i ! j) ^ m"
  unfolding arr_add_def arr_sub_def scal_mul_def arr_add_scal_def arr_div_scal_def arr_pow_def
  by (rule nth_map2 nth_map; assumption)+

subsection \<open>The Laplacian\<close>

lemma slice_extent:
  assumes "2 \<le> n"
  shows "slice_stop n (Some (- 2)) - slice_start n (Some 0) = n - 2"
    and "slice_stop n (Some (- 1)) - slice_start n (Some 1) = n - 2"
    and "slice_stop n None - slice_start n (Some 2) = n - 2"
  using assms by (simp_all add: slice_bounds)

lemma shape_slices:
  assumes "shape n n Z" "2 \<le> n"
  shows "shape (n - 2) (n - 2) (slice2 (Some 0) (Some (- 2)) (Some 1) (Some (- 1)) Z)"
    and "shape (n - 2) (n - 2) (slice2 (Some 1) (Some (- 1)) (Some 0) (Some (- 2)) Z)"
    and "shape (n - 2) (n - 2) (slice2 (Some 2) None (Some 1) (Some (- 1)) Z)"
    and "shape (n - 2) (n - 2) (slice2 (Some 1) (Some (- 1)) (Some 2) None Z)"
    and "shape (n - 2) (n - 2) (slice2 (Some 1) (Some (- 1)) (Some 1) (Some (- 1)) Z)"
  using shape_slice2 [OF assms(1), of "Some (- 2)" "Some 0" "Some (- 1)" "Some 1"]
    shape_slice2 [OF assms(1), of "Some (- 1)" "Some 1" "Some (- 2)" "Some 0"]
    shape_slice2 [OF assms(1), of None "Some 2" "Some (- 1)" "Some 1"]
    shape_slice2 [OF assms(1), of "Some (- 1)" "Some 1" None "Some 2"]
    shape_slice2 [OF assms(1), of "Some (- 1)" "Some 1" "Some (- 1)" "Some 1"]
  by (simp_all only: slice_extent [OF assms(2)])

lemma nth_slices:
  assumes "shape n n Z" "2 \<le> n" "i < n - 2" "j < n - 2"
  shows "slice2 (Some 0) (Some (- 2)) (Some 1) (Some (- 1)) Z ! i ! j = Z ! i ! (j + 1)"
    and "slice2 (Some 1) (Some (- 1)) (Some 0) (Some (- 2)) Z ! i ! j = Z ! (i + 1) ! j"
    and "slice2 (Some 2) None (Some 1) (Some (- 1)) Z ! i ! j = Z ! (i + 2) ! (j + 1)"
    and "slice2 (Some 1) (Some (- 1)) (Some 2) None Z ! i ! j = Z ! (i + 1) ! (j + 2)"
    and "slice2 (Some 1) (Some (- 1)) (Some 1) (Some (- 1)) Z ! i ! j = Z ! (i + 1) ! (j + 1)"
  using nth_slice2 [OF assms(1), of i "Some (- 2)" "Some 0" j "Some (- 1)" "Some 1"]
    nth_slice2 [OF assms(1), of i "Some (- 1)" "Some 1" j "Some (- 2)" "Some 0"]
    nth_slice2 [OF assms(1), of i None "Some 2" j "Some (- 1)" "Some 1"]
    nth_slice2 [OF assms(1), of i "Some (- 1)" "Some 1" j None "Some 2"]
    nth_slice2 [OF assms(1), of i "Some (- 1)" "Some 1" j "Some (- 1)" "Some 1"]
    assms(3,4)
  by (simp_all add: slice_extent [OF assms(2)] slice_bounds assms(2) add.commute)

lemma shape_laplacian:
  assumes "shape n n Z" "2 \<le> n"
  shows "shape (n - 2) (n - 2) (laplacian dx Z)"
  unfolding laplacian_def Let_def by (intro shape_arr shape_slices [OF assms])

lemma laplacian_cell:
  assumes "shape n n Z" "2 \<le> n" "i < n - 2" "j < n - 2"
  shows "laplacian dx Z ! i ! j =
           (Z ! i ! (j + 1) + Z ! (i + 1) ! j + Z ! (i + 2) ! (j + 1) + Z ! (i + 1) ! (j + 2)
              - 4 * Z ! (i + 1) ! (j + 1)) / dx ^ 2"
proof -
  note sh = shape_slices [OF assms(1,2)]
  note s1 = shape_arr(1) [OF sh(1) sh(2)]
  note s2 = shape_arr(1) [OF s1 sh(3)]
  note s3 = shape_arr(1) [OF s2 sh(4)]
  note s4 = shape_arr(3) [OF sh(5), of 4]
  note s5 = shape_arr(2) [OF s3 s4]
  show ?thesis
    unfolding laplacian_def Let_def
    by (simp only: nth_arr(5) [OF s5 assms(3,4)] nth_arr(2) [OF s3 s4 assms(3,4)]
          nth_arr(1) [OF s2 sh(4) assms(3,4)] nth_arr(1) [OF s1 sh(3) assms(3,4)]
          nth_arr(1) [OF sh(1) sh(2) assms(3,4)] nth_arr(3) [OF sh(5) assms(3,4)]
          nth_slices [OF assms])
qed


lemma laplacian_lap_cell:
  assumes "shape n n Z" "3 \<le> n" "1 \<le> i" "i \<le> n - 2" "1 \<le> j" "j \<le> n - 2"
  shows "laplacian dx Z ! (i - 1) ! (j - 1) = lap_cell dx Z i j"
proof -
  have "2 \<le> n" "i - 1 < n - 2" "j - 1 < n - 2" using assms by simp_all
  from laplacian_cell [OF assms(1) this] show ?thesis
    using assms by (simp add: lap_cell_def)
qed

text \<open>
  Claim C3. For an \<open>n \<times> n\<close> field \<open>Z\<close> with \<open>n \<ge> 3\<close> and \<open>dx > 0\<close>, \<open>laplacian\<close> returns
  an \<open>(n-2) \<times> (n-2)\<close> array \<open>L\<close> with
  \<open>L[i-1][j-1] = (Z[i-1][j] + Z[i][j-1] + Z[i+1][j] + Z[i][j+1] - 4 Z[i][j]) / dx\<^sup>2\<close>
  for all \<open>1 \<le> i, j \<le> n - 2\<close>. The function has no effect on \<open>Z\<close>: its body has no
  assignment, and it is a function of \<open>dx\<close> and \<open>Z\<close> alone here.
\<close>
theorem laplacian_five_point:
  assumes "shape n n Z" "3 \<le> n" "0 < dx"
  shows "shape (n - 2) (n - 2) (laplacian dx Z) \<and>
         (\<forall>i j. 1 \<le> i \<and> i \<le> n - 2 \<and> 1 \<le> j \<and> j \<le> n - 2 \<longrightarrow>
            laplacian dx Z ! (i - 1) ! (j - 1) =
              (Z ! (i - 1) ! j + Z ! i ! (j - 1) + Z ! (i + 1) ! j + Z ! i ! (j + 1)
                 - 4 * Z ! i ! j) / dx ^ 2)"
proof -
  have "shape (n - 2) (n - 2) (laplacian dx Z)"
    using assms by (intro shape_laplacian) simp_all
  moreover have "laplacian dx Z ! (i - 1) ! (j - 1) =
      (Z ! (i - 1) ! j + Z ! i ! (j - 1) + Z ! (i + 1) ! j + Z ! i ! (j + 1)
         - 4 * Z ! i ! j) / dx ^ 2"
    if "1 \<le> i" "i \<le> n - 2" "1 \<le> j" "j \<le> n - 2" for i j
    using laplacian_lap_cell [OF assms(1,2) that] by (simp add: lap_cell_def)
  ultimately show ?thesis by blast
qed

theorem laplacian_five_point_witness:
  "shape 3 3 Q3 \<and> (3::nat) \<le> 3 \<and> (0::real) < 2 \<and>
     shape 1 1 (laplacian 2 Q3) \<and> laplacian 2 Q3 ! 0 ! 0 = - 13 / 4"
proof -
  have s: "shape 3 3 Q3" by (simp add: shape_def Q3_def)
  have d: "(0::real) < 2" by simp
  from laplacian_five_point [OF s _ d]
  have sh: "shape (3 - 2) (3 - 2) (laplacian 2 Q3)"
    and c: "\<forall>i j. 1 \<le> i \<and> i \<le> 3 - 2 \<and> 1 \<le> j \<and> j \<le> 3 - 2 \<longrightarrow>
            laplacian 2 Q3 ! (i - 1) ! (j - 1) =
              (Q3 ! (i - 1) ! j + Q3 ! i ! (j - 1) + Q3 ! (i + 1) ! j + Q3 ! i ! (j + 1)
                 - 4 * Q3 ! i ! j) / 2 ^ 2"
    by simp_all
  from c [rule_format, of 1 1] have "laplacian 2 Q3 ! 0 ! 0 = - 13 / 4"
    by (simp add: Q3_def)
  then show ?thesis using s sh by simp
qed

lemma shape_full: "shape n n (full n c)"
  by (simp add: shape_def full_def list_all_length)

lemma nth_full: "i < n \<Longrightarrow> j < n \<Longrightarrow> full n c ! i ! j = c"
  by (simp add: full_def)

text \<open>
  Claim C7. For every constant \<open>c\<close>, every \<open>n \<ge> 3\<close> and every \<open>dx > 0\<close>, the Laplacian of
  the \<open>n \<times> n\<close> field with every cell equal to \<open>c\<close> is \<open>0\<close> at every interior cell.
\<close>
theorem laplacian_constant_field:
  assumes "3 \<le> n" "0 < dx"
  shows "laplacian dx (full n c) = full (n - 2) 0"
proof (rule grid_eqI)
  show "shape (n - 2) (n - 2) (laplacian dx (full n c))"
    using assms by (intro shape_laplacian shape_full) simp
  show "shape (n - 2) (n - 2) (full (n - 2) (0::real))" by (rule shape_full)
next
  fix i j assume ij: "i < n - 2" "j < n - 2"
  have n: "2 \<le> n" using assms by simp
  show "laplacian dx (full n c) ! i ! j = full (n - 2) 0 ! i ! j"
    using ij by (simp add: laplacian_cell [OF shape_full n ij] nth_full)
qed

theorem laplacian_constant_field_witness:
  "(3::nat) \<le> 4 \<and> (0::real) < 1 / 2 \<and> laplacian (1 / 2) (full 4 7) = [[0, 0], [0, 0]]"
proof -
  have "laplacian (1 / 2) (full 4 7) = full (4 - 2) 0"
    by (rule laplacian_constant_field) simp_all
  then show ?thesis by (simp add: full_def numeral_2_eq_2)
qed

subsection \<open>The interior update\<close>

lemma length_assign_slice: "length (assign_slice lo hi xs ys) = length xs"
  by (simp add: assign_slice_def Let_def)

lemma nth_assign_slice:
  "p < length xs \<Longrightarrow>
     assign_slice lo hi xs ys ! p =
       (if slice_start (length xs) lo \<le> p \<and> p < slice_stop (length xs) hi
        then ys ! (p - slice_start (length xs) lo) else xs ! p)"
  by (simp add: assign_slice_def Let_def)

lemma shape_assign_slice2:
  assumes "shape r c Z"
  shows "shape r c (assign_slice2 rlo rhi clo chi Z X)"
proof (rule shapeI)
  show "length (assign_slice2 rlo rhi clo chi Z X) = r"
    using assms by (simp add: assign_slice2_def Let_def shape_def)
next
  fix i assume "i < r"
  then show "length (assign_slice2 rlo rhi clo chi Z X ! i) = c"
    using assms shape_nth [OF assms]
    by (simp add: assign_slice2_def Let_def shape_length length_assign_slice)
qed

lemma nth_assign_slice2:
  assumes "shape r c Z" "i < r" "j < c"
  shows "assign_slice2 rlo rhi clo chi Z X ! i ! j =
           (if slice_start r rlo \<le> i \<and> i < slice_stop r rhi \<and>
               slice_start c clo \<le> j \<and> j < slice_stop c chi
            then X ! (i - slice_start r rlo) ! (j - slice_start c clo) else Z ! i ! j)"
  using assms shape_nth [OF assms(1,2)]
  by (simp add: assign_slice2_def Let_def shape_length nth_assign_slice)

lemma shape_interior:
  "shape n n Z \<Longrightarrow> 2 \<le> n \<Longrightarrow> shape (n - 2) (n - 2) (interior Z)"
  unfolding interior_def by (rule shape_slices)

lemma nth_interior:
  "shape n n Z \<Longrightarrow> 2 \<le> n \<Longrightarrow> i < n - 2 \<Longrightarrow> j < n - 2 \<Longrightarrow>
     interior Z ! i ! j = Z ! (i + 1) ! (j + 1)"
  unfolding interior_def by (rule nth_slices)

lemma shape_assign_interior:
  "shape n n Z \<Longrightarrow> shape n n (assign_interior Z X)"
  unfolding assign_interior_def by (rule shape_assign_slice2)

lemma is_interior_iff:
  "2 \<le> n \<Longrightarrow> is_interior n i j \<longleftrightarrow> 1 \<le> i \<and> i < n - 1 \<and> 1 \<le> j \<and> j < n - 1"
  by (auto simp: is_interior_def)

lemma nth_assign_interior:
  assumes "shape n n Z" "2 \<le> n" "i < n" "j < n"
  shows "assign_interior Z X ! i ! j =
           (if is_interior n i j then X ! (i - 1) ! (j - 1) else Z ! i ! j)"
  unfolding assign_interior_def
  using assms(2) by (simp add: nth_assign_slice2 [OF assms(1,3,4)] slice_bounds is_interior_iff)

lemma shape_rhs_U:
  assumes "shape r c D" "shape r c Uc" "shape r c Vc"
  shows "shape r c (rhs_U a k dt D Uc Vc)"
  unfolding rhs_U_def by (intro shape_arr assms)

lemma shape_rhs_V:
  assumes "shape r c D" "shape r c Uc" "shape r c Vc"
  shows "shape r c (rhs_V b tau dt D Uc Vc)"
  unfolding rhs_V_def by (intro shape_arr assms)

lemma nth_rhs_U:
  assumes "shape r c D" "shape r c Uc" "shape r c Vc" "i < r" "j < c"
  shows "rhs_U a k dt D Uc Vc ! i ! j =
           Uc ! i ! j + dt * (a * D ! i ! j + Uc ! i ! j - (Uc ! i ! j) ^ 3 - Vc ! i ! j + k)"
proof -
  note ij = assms(4,5)
  note s1 = shape_arr(3) [OF assms(1), of a]
  note s2 = shape_arr(1) [OF s1 assms(2)]
  note s3 = shape_arr(6) [OF assms(2), of 3]
  note s4 = shape_arr(2) [OF s2 s3]
  note s5 = shape_arr(2) [OF s4 assms(3)]
  note s6 = shape_arr(4) [OF s5, of k]
  note s7 = shape_arr(3) [OF s6, of dt]
  show ?thesis
    unfolding rhs_U_def
    by (simp only: nth_arr(1) [OF assms(2) s7 ij] nth_arr(3) [OF s6 ij] nth_arr(4) [OF s5 ij]
          nth_arr(2) [OF s4 assms(3) ij] nth_arr(2) [OF s2 s3 ij] nth_arr(1) [OF s1 assms(2) ij]
          nth_arr(3) [OF assms(1) ij] nth_arr(6) [OF assms(2) ij])
qed

lemma nth_rhs_V:
  assumes "shape r c D" "shape r c Uc" "shape r c Vc" "i < r" "j < c"
  shows "rhs_V b tau dt D Uc Vc ! i ! j =
           Vc ! i ! j + dt * (b * D ! i ! j + Uc ! i ! j - Vc ! i ! j) / tau"
proof -
  note ij = assms(4,5)
  note s1 = shape_arr(3) [OF assms(1), of b]
  note s2 = shape_arr(1) [OF s1 assms(2)]
  note s3 = shape_arr(2) [OF s2 assms(3)]
  note s4 = shape_arr(3) [OF s3, of dt]
  note s5 = shape_arr(5) [OF s4, of tau]
  show ?thesis
    unfolding rhs_V_def
    by (simp only: nth_arr(1) [OF assms(3) s5 ij] nth_arr(5) [OF s4 ij] nth_arr(3) [OF s3 ij]
          nth_arr(2) [OF s2 assms(3) ij] nth_arr(1) [OF s1 assms(2) ij]
          nth_arr(3) [OF assms(1) ij])
qed

lemma shape_update:
  assumes "shape n n U" "shape n n V"
  shows "shape n n (fst (update a b tau k dx dt (U, V)))"
    and "shape n n (snd (update a b tau k dx dt (U, V)))"
  using assms by (simp_all add: update_def Let_def shape_assign_interior)

lemma update_cells:
  assumes "shape n n U" "shape n n V" "3 \<le> n" "i < n" "j < n"
  shows "fst (update a b tau k dx dt (U, V)) ! i ! j =
           (if is_interior n i j then new_U_cell a k dx dt U V i j else U ! i ! j)"
    and "snd (update a b tau k dx dt (U, V)) ! i ! j =
           (if is_interior n i j then new_V_cell b tau dx dt U V i j else V ! i ! j)"
proof -
  have n2: "2 \<le> n" using assms by simp
  note sh = shape_laplacian [OF assms(1) n2, of dx] shape_laplacian [OF assms(2) n2, of dx]
    shape_interior [OF assms(1) n2] shape_interior [OF assms(2) n2]
  have U: "rhs_U a k dt (laplacian dx U) (interior U) (interior V) ! (i - 1) ! (j - 1) =
             new_U_cell a k dx dt U V i j"
    and V: "rhs_V b tau dt (laplacian dx V) (interior U) (interior V) ! (i - 1) ! (j - 1) =
             new_V_cell b tau dx dt U V i j"
    if "is_interior n i j"
  proof -
    have b: "1 \<le> i" "i \<le> n - 2" "1 \<le> j" "j \<le> n - 2"
      using that by (simp_all add: is_interior_def)
    then have ij: "i - 1 < n - 2" "j - 1 < n - 2" using assms(3) by simp_all
    have suc: "i - 1 + 1 = i" "j - 1 + 1 = j" using b by simp_all
    show "rhs_U a k dt (laplacian dx U) (interior U) (interior V) ! (i - 1) ! (j - 1) =
             new_U_cell a k dx dt U V i j"
      by (simp only: nth_rhs_U [OF sh(1,3,4) ij] nth_interior [OF assms(1) n2 ij]
            nth_interior [OF assms(2) n2 ij] laplacian_lap_cell [OF assms(1,3) b] suc
            new_U_cell_def)
    show "rhs_V b tau dt (laplacian dx V) (interior U) (interior V) ! (i - 1) ! (j - 1) =
             new_V_cell b tau dx dt U V i j"
      by (simp only: nth_rhs_V [OF sh(2,3,4) ij] nth_interior [OF assms(1) n2 ij]
            nth_interior [OF assms(2) n2 ij] laplacian_lap_cell [OF assms(2,3) b] suc
            new_V_cell_def)
  qed
  show "fst (update a b tau k dx dt (U, V)) ! i ! j =
           (if is_interior n i j then new_U_cell a k dx dt U V i j else U ! i ! j)"
    using U by (simp add: update_def Let_def nth_assign_interior [OF assms(1) n2 assms(4,5)])
  show "snd (update a b tau k dx dt (U, V)) ! i ! j =
           (if is_interior n i j then new_V_cell b tau dx dt U V i j else V ! i ! j)"
    using V by (simp add: update_def Let_def nth_assign_interior [OF assms(2) n2 assms(4,5)])
qed


lemma shape_write_interior:
  "shape n n Z \<Longrightarrow> shape n n (write_interior Z f)"
  by (simp add: shape_def write_interior_def Let_def list_all_length)

lemma nth_write_interior:
  "shape n n Z \<Longrightarrow> i < n \<Longrightarrow> j < n \<Longrightarrow>
     write_interior Z f ! i ! j = (if is_interior n i j then f i j else Z ! i ! j)"
  by (simp add: shape_def write_interior_def Let_def)

lemma iteration_cells:
  assumes "shape n n U" "shape n n V" "3 \<le> n"
  shows "\<exists>U' V'. iteration a b tau k dx dt (U, V) = Inr (U', V') \<and>
           shape n n U' \<and> shape n n V' \<and>
           (\<forall>i<n. \<forall>j<n.
              U' ! i ! j = fst (update a b tau k dx dt (U, V))
                             ! nearest_interior n i ! nearest_interior n j \<and>
              V' ! i ! j = snd (update a b tau k dx dt (U, V))
                             ! nearest_interior n i ! nearest_interior n j)"
proof -
  note sh = shape_update [OF assms(1,2), of a b tau k dx dt]
  from neumann_cells [OF sh(1) assms(3)] obtain U' where
    U': "neumann (fst (update a b tau k dx dt (U, V))) = Inr U'" "shape n n U'"
      "\<forall>i<n. \<forall>j<n. U' ! i ! j = fst (update a b tau k dx dt (U, V))
                             ! nearest_interior n i ! nearest_interior n j"
    by blast
  from neumann_cells [OF sh(2) assms(3)] obtain V' where
    V': "neumann (snd (update a b tau k dx dt (U, V))) = Inr V'" "shape n n V'"
      "\<forall>i<n. \<forall>j<n. V' ! i ! j = snd (update a b tau k dx dt (U, V))
                             ! nearest_interior n i ! nearest_interior n j"
    by blast
  have "iteration a b tau k dx dt (U, V) = Inr (U', V')"
    by (simp add: iteration_def Let_def err_bind_def U'(1) V'(1))
  then show ?thesis using U'(2,3) V'(2,3) by blast
qed

text \<open>
  Claim C1. For every state \<open>(U, V)\<close> of two \<open>n \<times> n\<close> fields (\<open>n \<ge> 3\<close>) and all parameters,
  one step sets each interior cell of \<open>U\<close> to
  \<open>U + dt * (a * Laplacian(U) + U - U\<^sup>3 - V + k)\<close> and each interior cell of \<open>V\<close> to
  \<open>V + dt * (b * Laplacian(V) + U - V) / tau\<close>, the right-hand sides being read from the
  fields before the step. This holds for the fields that \<open>update\<close> writes, and the boundary
  copies that end the loop body succeed and leave these cells as they are.
\<close>
theorem update_interior_cells:
  assumes "shape n n U" "shape n n V" "3 \<le> n"
  shows "\<exists>U' V'. iteration a b tau k dx dt (U, V) = Inr (U', V') \<and>
           (\<forall>i j. 1 \<le> i \<and> i \<le> n - 2 \<and> 1 \<le> j \<and> j \<le> n - 2 \<longrightarrow>
              fst (update a b tau k dx dt (U, V)) ! i ! j =
                U ! i ! j + dt * (a * laplacian dx U ! (i - 1) ! (j - 1)
                                   + U ! i ! j - (U ! i ! j) ^ 3 - V ! i ! j + k) \<and>
              snd (update a b tau k dx dt (U, V)) ! i ! j =
                V ! i ! j + dt * (b * laplacian dx V ! (i - 1) ! (j - 1)
                                   + U ! i ! j - V ! i ! j) / tau \<and>
              U' ! i ! j = fst (update a b tau k dx dt (U, V)) ! i ! j \<and>
              V' ! i ! j = snd (update a b tau k dx dt (U, V)) ! i ! j)"
proof -
  from iteration_cells [OF assms, of a b tau k dx dt] obtain U' V' where
    it: "iteration a b tau k dx dt (U, V) = Inr (U', V')"
    and cells: "\<And>i j. i < n \<Longrightarrow> j < n \<Longrightarrow>
              U' ! i ! j = fst (update a b tau k dx dt (U, V))
                             ! nearest_interior n i ! nearest_interior n j \<and>
              V' ! i ! j = snd (update a b tau k dx dt (U, V))
                             ! nearest_interior n i ! nearest_interior n j"
    by blast
  have "fst (update a b tau k dx dt (U, V)) ! i ! j =
          U ! i ! j + dt * (a * laplacian dx U ! (i - 1) ! (j - 1)
                             + U ! i ! j - (U ! i ! j) ^ 3 - V ! i ! j + k) \<and>
        snd (update a b tau k dx dt (U, V)) ! i ! j =
          V ! i ! j + dt * (b * laplacian dx V ! (i - 1) ! (j - 1)
                             + U ! i ! j - V ! i ! j) / tau \<and>
        U' ! i ! j = fst (update a b tau k dx dt (U, V)) ! i ! j \<and>
        V' ! i ! j = snd (update a b tau k dx dt (U, V)) ! i ! j"
    if b: "1 \<le> i" "i \<le> n - 2" "1 \<le> j" "j \<le> n - 2" for i j
  proof -
    have ij: "i < n" "j < n" using b assms(3) by simp_all
    have int: "is_interior n i j" using b by (simp add: is_interior_def)
    have ni: "nearest_interior n i = i" "nearest_interior n j = j"
      using b by (simp_all add: nearest_interior_id)
    have lU: "laplacian dx U ! (i - 1) ! (j - 1) = lap_cell dx U i j"
      by (rule laplacian_lap_cell [OF assms(1,3) b])
    have lV: "laplacian dx V ! (i - 1) ! (j - 1) = lap_cell dx V i j"
      by (rule laplacian_lap_cell [OF assms(2,3) b])
    have uU: "fst (update a b tau k dx dt (U, V)) ! i ! j = new_U_cell a k dx dt U V i j"
      using int by (simp add: update_cells [OF assms ij])
    have uV: "snd (update a b tau k dx dt (U, V)) ! i ! j = new_V_cell b tau dx dt U V i j"
      using int by (simp add: update_cells [OF assms ij])
    show ?thesis
      unfolding lU lV uU uV using cells [OF ij]
      by (simp add: ni uU uV) (simp add: new_U_cell_def new_V_cell_def)
  qed
  then show ?thesis using it by blast
qed

theorem update_interior_cells_witness:
  "shape 3 3 Q3 \<and> shape 3 3 P3 \<and> (3::nat) \<le> 3 \<and>
     fst (update 2 3 (1 / 2) (1 / 4) 1 (1 / 10) (Q3, P3)) ! 1 ! 1 = - 79 / 8 \<and>
     snd (update 2 3 (1 / 2) (1 / 4) 1 (1 / 10) (Q3, P3)) ! 1 ! 1 = - 13 / 5 \<and>
     (\<exists>U' V'. iteration 2 3 (1 / 2) (1 / 4) 1 (1 / 10) (Q3, P3) = Inr (U', V') \<and>
        U' ! 1 ! 1 = - 79 / 8 \<and> V' ! 1 ! 1 = - 13 / 5)"
proof -
  note s = shape_examples(1,2)
  have n: "(3::nat) \<le> 3" by simp
  have lQ: "laplacian 1 Q3 ! (1 - 1) ! (1 - 1) = - 13"
    using laplacian_lap_cell [OF s(1) n, of 1 1 1] by (simp add: lap_cell_def Q3_def)
  have lP: "laplacian 1 P3 ! (1 - 1) ! (1 - 1) = - 10"
    using laplacian_lap_cell [OF s(2) n, of 1 1 1] by (simp add: lap_cell_def P3_def)
  from update_interior_cells [OF s n, of 2 3 "1 / 2" "1 / 4" 1 "1 / 10"] obtain U' V' where
    it: "iteration 2 3 (1 / 2) (1 / 4) 1 (1 / 10) (Q3, P3) = Inr (U', V')"
    and c: "\<forall>i j. 1 \<le> i \<and> i \<le> 3 - 2 \<and> 1 \<le> j \<and> j \<le> 3 - 2 \<longrightarrow>
              fst (update 2 3 (1 / 2) (1 / 4) 1 (1 / 10) (Q3, P3)) ! i ! j =
                Q3 ! i ! j + 1 / 10 * (2 * laplacian 1 Q3 ! (i - 1) ! (j - 1)
                                   + Q3 ! i ! j - (Q3 ! i ! j) ^ 3 - P3 ! i ! j + 1 / 4) \<and>
              snd (update 2 3 (1 / 2) (1 / 4) 1 (1 / 10) (Q3, P3)) ! i ! j =
                P3 ! i ! j + 1 / 10 * (3 * laplacian 1 P3 ! (i - 1) ! (j - 1)
                                   + Q3 ! i ! j - P3 ! i ! j) / (1 / 2) \<and>
              U' ! i ! j = fst (update 2 3 (1 / 2) (1 / 4) 1 (1 / 10) (Q3, P3)) ! i ! j \<and>
              V' ! i ! j = snd (update 2 3 (1 / 2) (1 / 4) 1 (1 / 10) (Q3, P3)) ! i ! j"
    by blast
  from c [rule_format, of 1 1]
  have "fst (update 2 3 (1 / 2) (1 / 4) 1 (1 / 10) (Q3, P3)) ! 1 ! 1 = - 79 / 8"
    and "snd (update 2 3 (1 / 2) (1 / 4) 1 (1 / 10) (Q3, P3)) ! 1 ! 1 = - 13 / 5"
    and "U' ! 1 ! 1 = fst (update 2 3 (1 / 2) (1 / 4) 1 (1 / 10) (Q3, P3)) ! 1 ! 1"
    and "V' ! 1 ! 1 = snd (update 2 3 (1 / 2) (1 / 4) 1 (1 / 10) (Q3, P3)) ! 1 ! 1"
    unfolding lQ lP by (simp_all add: Q3_def P3_def)
  then show ?thesis using s it by simp
qed

text \<open>
  Claim C2. In one step the update of \<open>V\<close> reads the values \<open>U\<close> had before the step: the
  result of \<open>update\<close> is the result of computing both right-hand sides from one snapshot
  of the fields and writing both back afterwards (\<open>update_simultaneous\<close>). The witness
  also shows that the sequential order gives a different field on the same input.
\<close>
theorem update_reads_snapshot:
  assumes "shape n n U" "shape n n V" "3 \<le> n"
  shows "update a b tau k dx dt (U, V) = update_simultaneous a b tau k dx dt (U, V)"
proof (rule prod_eqI)
  show "fst (update a b tau k dx dt (U, V)) = fst (update_simultaneous a b tau k dx dt (U, V))"
  proof (rule grid_eqI)
    show "shape n n (fst (update a b tau k dx dt (U, V)))"
      by (rule shape_update [OF assms(1,2)])
    show "shape n n (fst (update_simultaneous a b tau k dx dt (U, V)))"
      using assms(1) by (simp add: update_simultaneous_def Let_def shape_write_interior)
  next
    fix i j assume ij: "i < n" "j < n"
    show "fst (update a b tau k dx dt (U, V)) ! i ! j =
            fst (update_simultaneous a b tau k dx dt (U, V)) ! i ! j"
      by (simp add: update_cells [OF assms ij] update_simultaneous_def Let_def
            nth_write_interior [OF assms(1) ij])
  qed
  show "snd (update a b tau k dx dt (U, V)) = snd (update_simultaneous a b tau k dx dt (U, V))"
  proof (rule grid_eqI)
    show "shape n n (snd (update a b tau k dx dt (U, V)))"
      by (rule shape_update [OF assms(1,2)])
    show "shape n n (snd (update_simultaneous a b tau k dx dt (U, V)))"
      using assms(2) by (simp add: update_simultaneous_def Let_def shape_write_interior)
  next
    fix i j assume ij: "i < n" "j < n"
    show "snd (update a b tau k dx dt (U, V)) ! i ! j =
            snd (update_simultaneous a b tau k dx dt (U, V)) ! i ! j"
      by (simp add: update_cells [OF assms ij] update_simultaneous_def Let_def
            nth_write_interior [OF assms(2) ij])
  qed
qed


lemma update_simultaneous_example:
  "update_simultaneous 2 3 (1 / 2) (1 / 4) 1 (1 / 10) (Q3, P3) =
     ([[0, 1, 0], [1, - 79 / 8, 2], [0, 3, 0]], [[1, 0, 2], [0, - 13 / 5, 1], [2, 1, 0]])"
  by (simp add: update_simultaneous_def write_interior_def Let_def Q3_def P3_def
        is_interior_def new_U_cell_def new_V_cell_def lap_cell_def upt_rec_numeral)

lemma update_sequential_example:
  "update_sequential 2 3 (1 / 2) (1 / 4) 1 (1 / 10) (Q3, P3) =
     ([[0, 1, 0], [1, - 79 / 8, 2], [0, 3, 0]], [[1, 0, 2], [0, - 223 / 40, 1], [2, 1, 0]])"
  by (simp add: update_sequential_def write_interior_def Let_def Q3_def P3_def
        is_interior_def new_U_cell_def new_V_cell_def lap_cell_def upt_rec_numeral)

theorem update_reads_snapshot_witness:
  "shape 3 3 Q3 \<and> shape 3 3 P3 \<and> (3::nat) \<le> 3 \<and>
     update 2 3 (1 / 2) (1 / 4) 1 (1 / 10) (Q3, P3) =
       ([[0, 1, 0], [1, - 79 / 8, 2], [0, 3, 0]], [[1, 0, 2], [0, - 13 / 5, 1], [2, 1, 0]]) \<and>
     update 2 3 (1 / 2) (1 / 4) 1 (1 / 10) (Q3, P3) \<noteq>
       update_sequential 2 3 (1 / 2) (1 / 4) 1 (1 / 10) (Q3, P3)"
proof -
  note s = shape_examples(1,2)
  have "update 2 3 (1 / 2) (1 / 4) 1 (1 / 10) (Q3, P3) =
          update_simultaneous 2 3 (1 / 2) (1 / 4) 1 (1 / 10) (Q3, P3)"
    by (rule update_reads_snapshot [OF s]) simp
  then show ?thesis
    using s by (simp add: update_simultaneous_example update_sequential_example)
qed

subsection \<open>The derived parameters\<close>

lemma float_int_limit_gt: "80 < float_int_limit"
  by (simp add: float_int_limit_def)






subsection \<open>Homogeneous states\<close>

lemma lap_cell_full:
  assumes "is_interior n i j"
  shows "lap_cell dx (full n c) i j = 0"
proof -
  have "1 \<le> i" "i \<le> n - 2" "1 \<le> j" "j \<le> n - 2"
    using assms by (simp_all add: is_interior_def)
  then have "i - 1 < n" "i < n" "i + 1 < n" "j - 1 < n" "j < n" "j + 1 < n" by simp_all
  then show ?thesis by (simp add: lap_cell_def nth_full)
qed

lemma iteration_full:
  assumes "3 \<le> n" "dx \<noteq> 0" "tau \<noteq> 0"
  shows "iteration a b tau k dx dt (full n c, full n c) =
           Inr (full n (c + dt * (k - c ^ 3)), full n c)"
proof -
  let ?s = "update a b tau k dx dt (full n c, full n c)"
  note sh = shape_full [of n c]
  from iteration_cells [OF sh sh assms(1), of a b tau k dx dt] obtain U' V' where
    it: "iteration a b tau k dx dt (full n c, full n c) = Inr (U', V')"
    and shU: "shape n n U'" and shV: "shape n n V'"
    and cells: "\<And>i j. i < n \<Longrightarrow> j < n \<Longrightarrow>
        U' ! i ! j = fst ?s ! nearest_interior n i ! nearest_interior n j \<and>
        V' ! i ! j = snd ?s ! nearest_interior n i ! nearest_interior n j"
    by blast
  have ni: "nearest_interior n i < n" for i
    using assms(1) by (simp add: nearest_interior_def)
  have int: "is_interior n (nearest_interior n i) (nearest_interior n j)" for i j
    using assms(1) by (simp add: is_interior_def nearest_interior_def)
  have "U' = full n (c + dt * (k - c ^ 3))"
  proof (rule grid_eqI [OF shU shape_full])
    fix i j assume ij: "i < n" "j < n"
    show "U' ! i ! j = full n (c + dt * (k - c ^ 3)) ! i ! j"
      using cells [OF ij] ij
      by (simp add: update_cells [OF sh sh assms(1) ni ni] int new_U_cell_def
            lap_cell_full nth_full ni)
  qed
  moreover have "V' = full n c"
  proof (rule grid_eqI [OF shV shape_full])
    fix i j assume ij: "i < n" "j < n"
    show "V' ! i ! j = full n c ! i ! j"
      using cells [OF ij] ij
      by (simp add: update_cells [OF sh sh assms(1) ni ni] int new_V_cell_def
            lap_cell_full nth_full ni)
  qed
  ultimately show ?thesis using it by simp
qed

lemma steps_fixed:
  assumes "iteration a b tau k dx dt s = Inr s"
  shows "steps m a b tau k dx dt s = Inr s"
  using assms by (induction m) (simp_all add: err_bind_def)

text \<open>
  Claim C6, as stated, fails: with \<open>a = b = 1\<close>, \<open>k = 0\<close>, \<open>tau = 1\<close> on the \<open>3 \<times> 3\<close> grid
  (\<open>dx = 2/3\<close>, \<open>dt = 1/5\<close>) the state \<open>U = V = 1\<close> becomes \<open>U = 4/5\<close>, \<open>V = 1\<close> after one
  step, because the reaction term \<open>U - U\<^sup>3 - V + k\<close> is \<open>- c\<^sup>3\<close> there, not \<open>0\<close>.
\<close>
theorem homogeneous_state_changes:
  "steps 1 1 1 1 0 (2 / 3) (1 / 5) (full 3 1, full 3 1) = Inr (full 3 (4 / 5), full 3 1) \<and>
   steps 1 1 1 1 0 (2 / 3) (1 / 5) (full 3 1, full 3 1) \<noteq> Inr (full 3 1, full 3 1)"
proof -
  have "iteration 1 1 1 0 (2 / 3) (1 / 5) (full 3 1, full 3 1) =
          Inr (full 3 (1 + 1 / 5 * (0 - 1 ^ 3)), full 3 1)"
    by (rule iteration_full) simp_all
  then have "steps 1 1 1 1 0 (2 / 3) (1 / 5) (full 3 1, full 3 1) =
               Inr (full 3 (4 / 5), full 3 1)"
    by (simp add: err_bind_def)
  then show ?thesis by (simp add: full_def numeral_3_eq_3)
qed

text \<open>
  Claim C6, amended. On an \<open>n \<times> n\<close> grid (\<open>n \<ge> 3\<close>, \<open>dx \<noteq> 0\<close>, \<open>tau \<noteq> 0\<close>) one step maps
  the homogeneous state \<open>U = V = c\<close> to \<open>U = c + dt * (k - c\<^sup>3)\<close>, \<open>V = c\<close>; so the state
  is unchanged after any number of steps when \<open>c\<^sup>3 = k\<close>, which for \<open>k = 0\<close> means \<open>c = 0\<close>.
\<close>
theorem homogeneous_state:
  assumes "3 \<le> n" "dx \<noteq> 0" "tau \<noteq> 0"
  shows "iteration a b tau k dx dt (full n c, full n c) =
           Inr (full n (c + dt * (k - c ^ 3)), full n c) \<and>
         (c ^ 3 = k \<longrightarrow>
            (\<forall>m. steps m a b tau k dx dt (full n c, full n c) = Inr (full n c, full n c)))"
proof -
  note it = iteration_full [OF assms, of a b k dt c]
  have "steps m a b tau k dx dt (full n c, full n c) = Inr (full n c, full n c)"
    if "c ^ 3 = k" for m
    using it that by (intro steps_fixed) simp
  then show ?thesis using it by blast
qed

theorem homogeneous_state_witness:
  "(3::nat) \<le> 3 \<and> (2 / 3 :: real) \<noteq> 0 \<and> (1::real) \<noteq> 0 \<and> (0::real) ^ 3 = 0 \<and>
     steps 5 1 1 1 0 (2 / 3) (1 / 5) (full 3 0, full 3 0) = Inr (full 3 0, full 3 0) \<and>
     iteration 1 1 1 0 (2 / 3) (1 / 5) (full 3 (1 / 2), full 3 (1 / 2)) =
       Inr (full 3 (19 / 40), full 3 (1 / 2))"
proof -
  have "steps 5 1 1 1 0 (2 / 3) (1 / 5) (full 3 0, full 3 0) = Inr (full 3 0, full 3 0)"
    using homogeneous_state [of 3 "2 / 3" 1 1 1 0 "1 / 5" 0] by simp
  moreover have "iteration 1 1 1 0 (2 / 3) (1 / 5) (full 3 (1 / 2), full 3 (1 / 2)) =
       Inr (full 3 (19 / 40), full 3 (1 / 2))"
    using homogeneous_state [of 3 "2 / 3" 1 1 1 0 "1 / 5" "1 / 2"]
    by (simp add: power3_eq_cube)
  ultimately show ?thesis by simp
qed


subsection \<open>The whole run and its failures\<close>

lemma neumann_ok:
  assumes "shape n n Z" "2 \<le> n"
  shows "\<exists>Z'. neumann Z = Inr Z' \<and> shape n n Z'"
proof -
  have "shape n n (Z[0 := Z ! 1])"
    using assms by (intro shape_list_update) (simp_all add: shape_nth)
  then have "shape n n ((Z[0 := Z ! 1])[n - 1 := (Z[0 := Z ! 1]) ! (n - 2)])"
    using assms by (intro shape_list_update) (simp_all add: shape_nth)
  then have "shape n n (map (\<lambda>row. row[n - 1 := row ! (n - 2)])
           (map (\<lambda>row. row[0 := row ! 1])
             ((Z[0 := Z ! 1])[n - 1 := (Z[0 := Z ! 1]) ! (n - 2)])))"
    by (intro shape_map_update)
  then show ?thesis using neumann_eq [OF assms] by simp
qed

lemma neumann_single_row:
  assumes "length Z = 1"
  shows "neumann Z = Inl IndexError"
  using assms by (simp add: neumann_def copy_row_def err_bind_def py_index_def)

lemma iteration_ok:
  assumes "shape n n U" "shape n n V" "2 \<le> n"
  shows "\<exists>U' V'. iteration a b tau k dx dt (U, V) = Inr (U', V') \<and>
           shape n n U' \<and> shape n n V'"
proof -
  note sh = shape_update [OF assms(1,2), of a b tau k dx dt]
  from neumann_ok [OF sh(1) assms(3)] obtain U' where
    U': "neumann (fst (update a b tau k dx dt (U, V))) = Inr U'" "shape n n U'" by blast
  from neumann_ok [OF sh(2) assms(3)] obtain V' where
    V': "neumann (snd (update a b tau k dx dt (U, V))) = Inr V'" "shape n n V'" by blast
  have "iteration a b tau k dx dt (U, V) = Inr (U', V')"
    by (simp add: iteration_def Let_def err_bind_def U'(1) V'(1))
  then show ?thesis using U'(2) V'(2) by blast
qed

lemma steps_ok:
  assumes "shape n n U" "shape n n V" "2 \<le> n"
  shows "\<exists>U' V'. steps m a b tau k dx dt (U, V) = Inr (U', V') \<and>
           shape n n U' \<and> shape n n V'"
  using assms(1,2)
proof (induction m arbitrary: U V)
  case 0
  then show ?case by simp
next
  case (Suc m)
  from iteration_ok [OF Suc.prems assms(3), of a b tau k dx dt] obtain U1 V1 where
    it: "iteration a b tau k dx dt (U, V) = Inr (U1, V1)"
    and sh: "shape n n U1" "shape n n V1" by blast
  from Suc.IH [OF sh] show ?case by (simp add: it err_bind_def)
qed

lemma steps_single_cell:
  assumes "shape 1 1 U" "shape 1 1 V"
  shows "steps m a b tau k dx dt (U, V) = (if m = 0 then Inr (U, V) else Inl IndexError)"
proof (cases m)
  case 0
  then show ?thesis by simp
next
  case (Suc m')
  have "length (fst (update a b tau k dx dt (U, V))) = 1"
    using shape_update(1) [OF assms, of a b tau k dx dt] by (simp add: shape_def)
  then have "iteration a b tau k dx dt (U, V) = Inl IndexError"
    by (simp add: iteration_def Let_def err_bind_def neumann_single_row)
  then show ?thesis using Suc by (simp add: err_bind_def)
qed

lemma simulate_unfold:
  assumes "sz \<noteq> 0" "\<bar>sz\<bar> < float_int_limit"
  shows "simulate float_div a b tau k sz T U0 V0 =
           err_bind (n_of float_div T (dt_of (2 / real_of_int sz))) (\<lambda>n.
           err_bind (rand sz U0) (\<lambda>U.
           err_bind (rand sz V0) (\<lambda>V.
             steps (nat n) a b tau k (2 / real_of_int sz) (dt_of (2 / real_of_int sz))
               (U, V))))"
  using assms by (simp add: simulate_def dx_of_def err_bind_def)

lemma float_int_limit_pos: "3 < float_int_limit"
  using float_int_limit_gt by simp

lemma n_of_exact_div:
  "y \<noteq> 0 \<Longrightarrow> n_of exact_div x y = Inr (if x / y < 0 then \<lceil>x / y\<rceil> else \<lfloor>x / y\<rfloor>)"
  by (simp add: n_of_def exact_div_def err_bind_def py_int_def)

text \<open>
  Claim C9, as stated, fails: the notebook checks none of its parameters. With \<open>a = -1\<close>,
  \<open>b = 0\<close> and \<open>tau = -2\<close> the run on a \<open>3 \<times> 3\<close> grid (\<open>T = 0.3\<close>, \<open>dt = 0.2\<close>, one step)
  performs its step and returns the fields, and with \<open>T = -1.1\<close> it performs no step and
  returns the initial fields.
\<close>
theorem no_parameter_validation:
  "simulate exact_div (- 1) 0 (- 2) 0 3 (3 / 10)
       (Inr (full 3 (1 / 2))) (Inr (full 3 (1 / 2))) =
     Inr (full 3 (19 / 40), full 3 (1 / 2)) \<and>
   simulate exact_div 1 1 1 0 3 (- 11 / 10)
       (Inr (full 3 (1 / 2))) (Inr (full 3 (1 / 2))) =
     Inr (full 3 (1 / 2), full 3 (1 / 2))"
proof -
  have dt: "dt_of (2 / 3) = 1 / 5" by (simp add: dt_of_def power2_eq_square)
  have n1: "n_of exact_div (3 / 10) (1 / 5) = Inr 1"
    by (simp add: n_of_exact_div floor_eq_iff)
  have n0: "n_of exact_div (- (11 / 10)) (1 / 5) = Inr (- 5)"
    by (simp add: n_of_exact_div ceiling_eq_iff)
  have it: "iteration (- 1) 0 (- 2) 0 (2 / 3) (1 / 5) (full 3 (1 / 2), full 3 (1 / 2)) =
              Inr (full 3 (19 / 40), full 3 (1 / 2))"
    using iteration_full [of 3 "2 / 3" "- 2" "- 1" 0 0 "1 / 5" "1 / 2"]
    by (simp add: power3_eq_cube)
  have u: "simulate exact_div a b tau k 3 T U0 V0 =
             err_bind (n_of exact_div T (1 / 5)) (\<lambda>n.
             err_bind (rand 3 U0) (\<lambda>U.
             err_bind (rand 3 V0) (\<lambda>V.
               steps (nat n) a b tau k (2 / 3) (1 / 5) (U, V))))" for a b tau k T U0 V0
    using simulate_unfold [of 3 exact_div a b tau k T U0 V0] float_int_limit_pos
    by (simp add: dt)
  show ?thesis
    by (simp add: u n1 n0 rand_def it err_bind_def)
qed

text \<open>
  Claim C9, amended. The program validates no parameter and has no \<open>InvalidParameter\<close>
  error; \<open>a\<close>, \<open>b\<close>, \<open>tau\<close> and \<open>k\<close> never make a run fail. What a run does is decided by
  \<open>size\<close>, by the step count \<open>n = int(T/dt)\<close> and by the allocation of the fields, in this
  order:
  \<^item> a \<open>size\<close> too large for a float64 fails with \<open>OverflowError\<close>, and \<open>size = 0\<close> with
    \<open>ZeroDivisionError\<close>, when \<open>dx\<close> is derived;
  \<^item> otherwise an error of \<open>n = int(T/dt)\<close> is the error of the run;
  \<^item> otherwise a negative \<open>size\<close> fails with \<open>ValueError\<close> when the fields are allocated,
    and an allocation that fails for a positive \<open>size\<close> is the error of the run;
  \<^item> otherwise, with two \<open>size \<times> size\<close> fields allocated: a step count \<open>n \<le> 0\<close> (as a
    \<open>T \<le> 0\<close> gives) runs no step and returns the initial fields; \<open>size = 1\<close> with \<open>n \<ge> 1\<close>
    fails with \<open>IndexError\<close> in the boundary copy of the first step; \<open>size \<ge> 2\<close> returns two
    \<open>size \<times> size\<close> fields.
\<close>
theorem simulate_outcome:
  assumes "shape (nat sz) (nat sz) U" "shape (nat sz) (nat sz) V"
  shows "(float_int_limit \<le> \<bar>sz\<bar> \<longrightarrow>
            simulate float_div a b tau k sz T U0 V0 = Inl OverflowError) \<and>
         (sz = 0 \<longrightarrow> simulate float_div a b tau k sz T U0 V0 = Inl ZeroDivisionError) \<and>
         (sz \<noteq> 0 \<and> \<bar>sz\<bar> < float_int_limit \<longrightarrow>
            (n_of float_div T (dt_of (2 / real_of_int sz)) = Inl e \<longrightarrow>
               simulate float_div a b tau k sz T U0 V0 = Inl e) \<and>
            (n_of float_div T (dt_of (2 / real_of_int sz)) = Inr n \<longrightarrow>
               (sz < 0 \<longrightarrow> simulate float_div a b tau k sz T U0 V0 = Inl ValueError) \<and>
               (0 < sz \<longrightarrow> simulate float_div a b tau k sz T (Inl e) V0 = Inl e) \<and>
               (0 < sz \<longrightarrow> simulate float_div a b tau k sz T (Inr U) (Inl e) = Inl e) \<and>
               (0 < sz \<and> n \<le> 0 \<longrightarrow>
                  simulate float_div a b tau k sz T (Inr U) (Inr V) = Inr (U, V)) \<and>
               (sz = 1 \<and> 1 \<le> n \<longrightarrow>
                  simulate float_div a b tau k sz T (Inr U) (Inr V) = Inl IndexError) \<and>
               (2 \<le> sz \<longrightarrow>
                  (\<exists>U' V'. simulate float_div a b tau k sz T (Inr U) (Inr V) = Inr (U', V') \<and>
                     shape (nat sz) (nat sz) U' \<and> shape (nat sz) (nat sz) V'))))"
proof (intro conjI impI; (elim conjE)?)
  assume "float_int_limit \<le> \<bar>sz\<bar>"
  then show "simulate float_div a b tau k sz T U0 V0 = Inl OverflowError"
    by (simp add: simulate_def dx_of_def err_bind_def)
next
  assume "sz = 0"
  then show "simulate float_div a b tau k sz T U0 V0 = Inl ZeroDivisionError"
    using float_int_limit_pos by (simp add: simulate_def dx_of_def err_bind_def)
next
  assume "sz \<noteq> 0" "\<bar>sz\<bar> < float_int_limit"
    and "n_of float_div T (dt_of (2 / real_of_int sz)) = Inl e"
  then show "simulate float_div a b tau k sz T U0 V0 = Inl e"
    by (simp add: simulate_unfold err_bind_def)
next
  assume "sz \<noteq> 0" "\<bar>sz\<bar> < float_int_limit"
    and "n_of float_div T (dt_of (2 / real_of_int sz)) = Inr n" "sz < 0"
  then show "simulate float_div a b tau k sz T U0 V0 = Inl ValueError"
    by (simp add: simulate_unfold err_bind_def rand_def)
next
  assume "sz \<noteq> 0" "\<bar>sz\<bar> < float_int_limit"
    and "n_of float_div T (dt_of (2 / real_of_int sz)) = Inr n" "0 < sz"
  then show "simulate float_div a b tau k sz T (Inl e) V0 = Inl e"
    by (simp add: simulate_unfold err_bind_def rand_def)
next
  assume "sz \<noteq> 0" "\<bar>sz\<bar> < float_int_limit"
    and "n_of float_div T (dt_of (2 / real_of_int sz)) = Inr n" "0 < sz"
  then show "simulate float_div a b tau k sz T (Inr U) (Inl e) = Inl e"
    by (simp add: simulate_unfold err_bind_def rand_def)
next
  assume "sz \<noteq> 0" "\<bar>sz\<bar> < float_int_limit"
    and "n_of float_div T (dt_of (2 / real_of_int sz)) = Inr n" "0 < sz" "n \<le> 0"
  then show "simulate float_div a b tau k sz T (Inr U) (Inr V) = Inr (U, V)"
    by (simp add: simulate_unfold err_bind_def rand_def)
next
  assume "sz \<noteq> 0" "\<bar>sz\<bar> < float_int_limit"
    and n: "n_of float_div T (dt_of (2 / real_of_int sz)) = Inr n" and sz: "sz = 1" "1 \<le> n"
  then have "shape 1 1 U" "shape 1 1 V" using assms by simp_all
  then show "simulate float_div a b tau k sz T (Inr U) (Inr V) = Inl IndexError"
    using n sz float_int_limit_pos
    by (simp add: simulate_unfold err_bind_def rand_def steps_single_cell)
next
  assume lim: "sz \<noteq> 0" "\<bar>sz\<bar> < float_int_limit"
    and n: "n_of float_div T (dt_of (2 / real_of_int sz)) = Inr n" and sz: "2 \<le> sz"
  then have "2 \<le> nat sz" by simp
  from steps_ok [OF assms this] n sz lim
  show "\<exists>U' V'. simulate float_div a b tau k sz T (Inr U) (Inr V) = Inr (U', V') \<and>
            shape (nat sz) (nat sz) U' \<and> shape (nat sz) (nat sz) V'"
    by (simp add: simulate_unfold err_bind_def rand_def)
qed

theorem simulate_outcome_witness:
  "shape (nat 1) (nat 1) [[1 / 2 :: real]] \<and> shape (nat 1) (nat 1) [[1 / 4 :: real]] \<and>
     n_of exact_div 10 (dt_of (2 / real_of_int 1)) = Inr 5 \<and>
     simulate exact_div 1 1 1 0 1 10 (Inr [[1 / 2]]) (Inr [[1 / 4]]) = Inl IndexError \<and>
     n_of exact_div 1 (dt_of (2 / real_of_int 1)) = Inr 0 \<and>
     simulate exact_div 1 1 1 0 1 1 (Inr [[1 / 2]]) (Inr [[1 / 4]]) =
       Inr ([[1 / 2]], [[1 / 4]])"
proof -
  have s: "shape (nat 1) (nat 1) [[1 / 2 :: real]]" "shape (nat 1) (nat 1) [[1 / 4 :: real]]"
    by (simp_all add: shape_def)
  have lim: "\<bar>1::int\<bar> < float_int_limit" using float_int_limit_pos by simp
  have n: "n_of exact_div 10 (dt_of (2 / real_of_int 1)) = Inr 5"
    "n_of exact_div 1 (dt_of (2 / real_of_int 1)) = Inr 0"
    by (simp_all add: n_of_exact_div dt_of_def floor_eq_iff)
  show ?thesis
    using s lim n
      simulate_outcome [OF s, where float_div = exact_div and T = 10 and n = 5
        and a = 1 and b = 1 and tau = 1 and k = 0 and e = IndexError
        and ?U0.0 = "Inr [[1 / 2]]" and ?V0.0 = "Inr [[1 / 4]]"]
      simulate_outcome [OF s, where float_div = exact_div and T = 1 and n = 0
        and a = 1 and b = 1 and tau = 1 and k = 0 and e = IndexError
        and ?U0.0 = "Inr [[1 / 2]]" and ?V0.0 = "Inr [[1 / 4]]"]
    by simp
qed

end
